theory Spec2Isabelle
  imports Complex_Main "HOL-Library.Word"
begin

section \<open>Data model of the chat widget (src/App.jsx)\<close>

text \<open>
  A JavaScript string is a sequence of UTF-16 code units. String literals of the source
  are written through \<open>utf16\<close>.
\<close>

type_synonym jsstring = "16 word list"

definition utf16 :: "string \<Rightarrow> jsstring" where
  "utf16 cs = map of_char cs"

text \<open>
  A chat message as the component reads it: \<open>id\<close>, \<open>content\<close>, \<open>image_url\<close>,
  \<open>is_reply\<close>, \<open>is_view\<close>, \<open>create_time\<close>, the optional \<open>title\<close> and the client-only
  \<open>msgStatus\<close> (\<open>None\<close> is JavaScript's \<open>undefined\<close>; 1 is pending, 2 is failed).
  The field \<open>id\<close> is called \<open>msg_id\<close> here.
\<close>

record message =
  msg_id :: nat
  content :: jsstring
  image_url :: jsstring
  is_reply :: bool
  is_view :: bool
  create_time :: rat
  title :: "jsstring option"
  msgStatus :: "nat option"

text \<open>The toast state \<open>{ show, message }\<close>.\<close>

record toast_state =
  toast_show :: bool
  toast_message :: jsstring

datatype scroll_behavior = Smooth | Auto

text \<open>The calls of \<open>ChatAPI\<close> that the controllers of \<open>ChatApp\<close> make.\<close>

record js_file =
  file_name :: jsstring
  file_size :: nat

datatype request =
    GetChatHistory bool
  | SendChat jsstring jsstring
  | ChatRead nat
  | OssSign jsstring
  | OssUpload jsstring js_file

text \<open>
  What the component does to the outside world, in the order it does it: a network call,
  a scheduled scroll to the bottom, a call of \<open>showToast\<close>, a line on the error console,
  and the creation and release of a preview URL.
\<close>

text \<open>
  A value caught by a \<open>catch\<close>: an \<open>Error\<close> thrown by \<open>ChatAPI.request\<close> with its
  message, or the \<open>TypeError\<close> of the runtime when \<open>null\<close> is destructured.
\<close>

datatype js_error = ApiError jsstring | RuntimeTypeError

datatype effect =
    Request request
  | ScrollToBottom scroll_behavior
  | ShowToast jsstring
  | ConsoleError jsstring js_error
  | CreateObjectURL jsstring
  | RevokeObjectURL jsstring

text \<open>
  The state of \<open>ChatApp\<close> that the controllers touch: the \<open>useState\<close> cells, the ref
  \<open>lastUnreadIdRef.current\<close> (\<open>lastUnreadId\<close>), and the trace of effects.
\<close>

record chat_state =
  messages :: "message list"
  greetings :: "message list"
  inputValue :: jsstring
  sending :: bool
  toast :: toast_state
  unreadCount :: nat
  isFirstLoad :: bool
  lastUnreadId :: nat
  showScrollButton :: bool
  effects :: "effect list"

definition initial_state :: chat_state where
  "initial_state =
     \<lparr> messages = [], greetings = [], inputValue = [], sending = False,
       toast = \<lparr> toast_show = False, toast_message = [] \<rparr>,
       unreadCount = 0, isFirstLoad = True, lastUnreadId = 0, showScrollButton = False,
       effects = [] \<rparr>"

definition emit :: "effect \<Rightarrow> chat_state \<Rightarrow> chat_state" where
  "emit e s = s\<lparr> effects := effects s @ [e] \<rparr>"

definition showToast :: "jsstring \<Rightarrow> chat_state \<Rightarrow> chat_state" where
  "showToast m s = emit (ShowToast m) (s\<lparr> toast := \<lparr> toast_show = True, toast_message = m \<rparr> \<rparr>)"

definition scrollToBottom :: "scroll_behavior \<Rightarrow> chat_state \<Rightarrow> chat_state" where
  "scrollToBottom b s = emit (ScrollToBottom b) s"

section \<open>The merge step: processMessages\<close>

text \<open>
  The body of the \<open>for\<close> loop of \<open>processMessages\<close>, at index \<open>i\<close>, on the accumulator
  \<open>(processed, unread, lastUnread)\<close>: \<open>processed.unshift(msg)\<close>, then, for an unread
  message, \<open>unread++\<close> and, when \<open>i === 0 && !msg.is_reply\<close>, \<open>lastUnread = msg.id\<close>.
\<close>

fun processMessages_loop ::
  "nat \<Rightarrow> message list \<Rightarrow> message list \<times> nat \<times> nat \<Rightarrow> message list \<times> nat \<times> nat" where
  "processMessages_loop i [] acc = acc"
| "processMessages_loop i (msg # rest) (processed, unread, lastUnread) =
     processMessages_loop (Suc i) rest
       (msg # processed,
        (if \<not> is_view msg then unread + 1 else unread),
        (if \<not> is_view msg \<and> i = 0 \<and> \<not> is_reply msg then msg_id msg else lastUnread))"

definition processMessages :: "message list \<Rightarrow> chat_state \<Rightarrow> chat_state" where
  "processMessages msgs s =
     (case processMessages_loop 0 msgs ([], 0, 0) of
        (processed, unread, lastUnread) \<Rightarrow>
          let s1 = s\<lparr> lastUnreadId := lastUnread, messages := processed, unreadCount := unread \<rparr>
          in if isFirstLoad s \<and> unread = 0 then scrollToBottom Auto s1 else s1)"

section \<open>History fetch: loadMessages\<close>

text \<open>
  The result of an awaited \<open>ChatAPI\<close> call: \<open>Inl m\<close> when it throws an error whose
  \<open>message\<close> is \<open>m\<close>, \<open>Inr d\<close> when it returns the data \<open>d\<close>.

  The data of the history endpoint is an array, or an object whose fields \<open>greeting\<close> and
  \<open>list\<close> may be absent (\<open>None\<close>, replaced by the default \<open>[]\<close>), or \<open>null\<close>, whose
  destructuring throws.
\<close>

datatype history_data =
    HistoryList "message list"
  | HistoryObject "message list option" "message list option"
  | HistoryNull

definition or_empty :: "'a list option \<Rightarrow> 'a list" where
  "or_empty v = (case v of None \<Rightarrow> [] | Some xs \<Rightarrow> xs)"

definition finish_load :: "bool \<Rightarrow> chat_state \<Rightarrow> chat_state" where
  "finish_load isInitial s = (if isInitial then s\<lparr> isFirstLoad := False \<rparr> else s)"

text \<open>
  \<open>loadMessages(isInitial)\<close>, given the result \<open>r\<close> of \<open>api.getChatHistory(!isFirstLoad)\<close>.
  \<open>processMessages\<close> runs before \<open>setIsFirstLoad(false)\<close> and so reads the old flag.
\<close>

definition loadMessages :: "bool \<Rightarrow> jsstring + history_data \<Rightarrow> chat_state \<Rightarrow> chat_state" where
  "loadMessages isInitial r s =
     (let s1 = emit (Request (GetChatHistory (\<not> isFirstLoad s))) s in
      case r of
        Inl e \<Rightarrow> emit (ConsoleError (utf16 ''Failed to load messages:'') (ApiError e)) s1
      | Inr (HistoryList msgs) \<Rightarrow> finish_load isInitial (processMessages msgs s1)
      | Inr (HistoryObject g l) \<Rightarrow>
          let greeting = or_empty g;
              list = or_empty l;
              s2 = (if greeting \<noteq> [] \<and> isInitial
                    then s1\<lparr> greetings := map (\<lambda>g. g\<lparr> is_reply := True, is_view := True \<rparr>) greeting \<rparr>
                    else s1)
          in finish_load isInitial (processMessages list s2)
      | Inr HistoryNull \<Rightarrow>
          emit (ConsoleError (utf16 ''Failed to load messages:'') RuntimeTypeError) s1)"

text \<open>A session's history fetches in order, each with its \<open>isInitial\<close> and its result.\<close>

fun run_loads :: "(bool \<times> (jsstring + history_data)) list \<Rightarrow> chat_state \<Rightarrow> chat_state" where
  "run_loads [] s = s"
| "run_loads ((isInitial, r) # evs) s = run_loads evs (loadMessages isInitial r s)"

text \<open>The \<open>is_greeting\<close> flags of the history requests in a trace, in order.\<close>

fun history_flags :: "effect list \<Rightarrow> bool list" where
  "history_flags [] = []"
| "history_flags (Request (GetChatHistory b) # es) = b # history_flags es"
| "history_flags (e # es) = history_flags es"

text \<open>
  A fetch completes as an initial fetch when it is called with \<open>isInitial\<close> and reaches
  \<open>setIsFirstLoad(false)\<close>: the call returned and its data was not \<open>null\<close>.
\<close>

fun initial_fetch_completed :: "bool \<times> (jsstring + history_data) \<Rightarrow> bool" where
  "initial_fetch_completed (isInitial, Inl e) = False"
| "initial_fetch_completed (isInitial, Inr HistoryNull) = False"
| "initial_fetch_completed (isInitial, Inr d) = isInitial"

section \<open>Read confirmation: markAsRead and handleScroll\<close>

text \<open>
  \<open>markAsRead(id)\<close>, given the result \<open>r\<close> of \<open>api.markAsRead(id)\<close>. The id 0 is falsy:
  the function returns before any request.
\<close>

definition markAsRead :: "nat \<Rightarrow> jsstring + unit \<Rightarrow> chat_state \<Rightarrow> chat_state" where
  "markAsRead i r s =
     (if i = 0 then s
      else
        let s1 = emit (Request (ChatRead i)) s in
        case r of
          Inr u \<Rightarrow> s1\<lparr> unreadCount := 0, lastUnreadId := 0 \<rparr>
        | Inl e \<Rightarrow> emit (ConsoleError (utf16 ''Failed to mark as read:'') (ApiError e)) s1)"

text \<open>
  \<open>handleScroll\<close>: \<open>container\<close> is \<open>None\<close> when \<open>chatContainerRef.current\<close> is unset, else
  \<open>(scrollTop, scrollHeight, clientHeight)\<close>.
\<close>

definition handleScroll ::
  "(rat \<times> rat \<times> rat) option \<Rightarrow> jsstring + unit \<Rightarrow> chat_state \<Rightarrow> chat_state" where
  "handleScroll container r s =
     (case container of
        None \<Rightarrow> s
      | Some (scrollTop, scrollHeight, clientHeight) \<Rightarrow>
          let distanceFromBottom = scrollHeight - clientHeight - scrollTop;
              s1 = s\<lparr> showScrollButton := (distanceFromBottom > 80) \<rparr>
          in if distanceFromBottom < 80 \<and> lastUnreadId s1 \<noteq> 0
             then markAsRead (lastUnreadId s1) r s1 else s1)"

section \<open>Sending: the pieces of handleSendMessage\<close>

text \<open>
  \<open>String.prototype.trim\<close> removes the white space and line terminators of ECMAScript
  from both ends.
\<close>

definition js_whitespace :: "16 word \<Rightarrow> bool" where
  "js_whitespace c =
     (c \<in> set [0x0009, 0x000A, 0x000B, 0x000C, 0x000D, 0x0020, 0x00A0, 0x1680,
                0x2000, 0x2001, 0x2002, 0x2003, 0x2004, 0x2005, 0x2006, 0x2007,
                0x2008, 0x2009, 0x200A, 0x2028, 0x2029, 0x202F, 0x205F, 0x3000, 0xFEFF])"

definition trim :: "jsstring \<Rightarrow> jsstring" where
  "trim str = rev (dropWhile js_whitespace (rev (dropWhile js_whitespace str)))"

text \<open>
  The optimistic message; \<open>now\<close> and \<open>now'\<close> are the two readings of \<open>Date.now()\<close>.
\<close>

definition tempMessage :: "nat \<Rightarrow> nat \<Rightarrow> jsstring \<Rightarrow> jsstring \<Rightarrow> message" where
  "tempMessage now now' c imageUrl =
     \<lparr> msg_id = now, content = c, image_url = imageUrl, is_reply = False, is_view = True,
       create_time = of_nat now' / 1000, title = None, msgStatus = Some 1 \<rparr>"

text \<open>\<open>prev.map(m => m.id === tempMessage.id ? { ...m, msgStatus: st } : m)\<close>\<close>

definition set_status :: "nat \<Rightarrow> nat option \<Rightarrow> message list \<Rightarrow> message list" where
  "set_status i st prev = map (\<lambda>m. if msg_id m = i then m\<lparr> msgStatus := st \<rparr> else m) prev"

text \<open>The part of \<open>handleSendMessage\<close> before the \<open>await\<close>, up to the request.\<close>

definition handleSendMessage_begin ::
  "jsstring \<Rightarrow> jsstring \<Rightarrow> nat \<Rightarrow> nat \<Rightarrow> chat_state \<Rightarrow> chat_state" where
  "handleSendMessage_begin c imageUrl now now' s =
     emit (Request (SendChat (trim c) imageUrl))
       (scrollToBottom Smooth
          (s\<lparr> messages := messages s @ [tempMessage now now' (trim c) imageUrl],
              inputValue := [], sending := True \<rparr>))"

text \<open>The part after the \<open>await\<close>: \<open>try\<close> continuation, \<open>catch\<close> and \<open>finally\<close>.\<close>

definition handleSendMessage_end :: "nat \<Rightarrow> jsstring + unit \<Rightarrow> chat_state \<Rightarrow> chat_state" where
  "handleSendMessage_end i r s =
     (let s1 = (case r of
                  Inr u \<Rightarrow> s\<lparr> messages := set_status i None (messages s) \<rparr>
                | Inl e \<Rightarrow> showToast e (s\<lparr> messages := set_status i (Some 2) (messages s) \<rparr>))
      in s1\<lparr> sending := False \<rparr>)"

section \<open>Image upload: the pieces of handleImageUpload\<close>

text \<open>
  \<open>file.name.match(/\.[^.]+$/)?.[0] || ''\<close>: the leftmost position holding a dot that is
  followed, up to the end of the name, by at least one character and no other dot.
\<close>

fun file_ext :: "jsstring \<Rightarrow> jsstring" where
  "file_ext [] = []"
| "file_ext (c # cs) =
     (if c = 0x2E \<and> cs \<noteq> [] \<and> 0x2E \<notin> set cs then c # cs else file_ext cs)"

text \<open>The data of the signature endpoint: \<open>upload_url\<close>, \<open>url\<close> and the other fields.\<close>

record oss_signature =
  upload_url :: jsstring
  url :: jsstring
  credentials :: "(jsstring \<times> jsstring) list"

definition MAX_SIZE :: nat where
  "MAX_SIZE = 2 * 1024 * 1024"

text \<open>The \<open>catch\<close> block of \<open>handleImageUpload\<close>.\<close>

definition upload_failed :: "nat \<Rightarrow> jsstring \<Rightarrow> chat_state \<Rightarrow> chat_state" where
  "upload_failed i e s = showToast e (s\<lparr> messages := set_status i (Some 2) (messages s) \<rparr>)"

text \<open>
  The synchronous start of \<open>handleImageUpload\<close> once the guards have passed: the preview
  URL, the optimistic message, the scroll, and the signature request.
\<close>

definition handleImageUpload_begin ::
  "js_file \<Rightarrow> jsstring \<Rightarrow> nat \<Rightarrow> nat \<Rightarrow> chat_state \<Rightarrow> chat_state" where
  "handleImageUpload_begin f previewUrl now now' s =
     (let s1 = emit (CreateObjectURL previewUrl) s;
          s2 = scrollToBottom Smooth
                 (s1\<lparr> messages := messages s1 @ [tempMessage now now' [] previewUrl] \<rparr>)
      in emit (Request (OssSign (file_ext (file_name f)))) s2)"

text \<open>
  \<open>prev.map(m => m.id === tempMessage.id ? { ...m, image_url: url, msgStatus: undefined } : m)\<close>
\<close>

definition upload_stored :: "nat \<Rightarrow> jsstring \<Rightarrow> chat_state \<Rightarrow> chat_state" where
  "upload_stored i u s =
     s\<lparr> messages := map (\<lambda>m. if msg_id m = i then m\<lparr> image_url := u, msgStatus := None \<rparr> else m)
                        (messages s) \<rparr>"

section \<open>What runs while a request is in flight\<close>

text \<open>
  The controllers are \<open>async\<close>: at each \<open>await\<close> the event loop runs whatever else is
  ready before the continuation. An \<open>event\<close> is one such synchronous piece of another
  handler: the continuation of a history fetch or of a read confirmation, a scroll, a
  change of the input, the closing of the toast, and the pieces of another send or upload
  (up to its \<open>await\<close>, and from its \<open>await\<close> on).
\<close>

datatype event =
    Loaded bool "jsstring + history_data"
  | MarkedRead nat "jsstring + unit"
  | Scrolled "(rat \<times> rat \<times> rat) option" "jsstring + unit"
  | InputChanged jsstring
  | ToastClosed
  | SendStarted jsstring jsstring nat nat
  | SendSettled nat "jsstring + unit"
  | UploadStarted "js_file option" jsstring nat nat
  | UploadSigned js_file nat jsstring "jsstring + oss_signature"
  | UploadSettled nat jsstring "jsstring + jsstring" nat nat
  | PreviewRevoked jsstring

fun step :: "event \<Rightarrow> chat_state \<Rightarrow> chat_state" where
  "step (Loaded isInitial r) s = loadMessages isInitial r s"
| "step (MarkedRead i r) s = markAsRead i r s"
| "step (Scrolled container r) s = handleScroll container r s"
| "step (InputChanged v) s = s\<lparr> inputValue := v \<rparr>"
| "step ToastClosed s = s\<lparr> toast := \<lparr> toast_show = False, toast_message = [] \<rparr> \<rparr>"
| "step (SendStarted c imageUrl now now') s =
     (if trim c = [] \<and> imageUrl = [] then s else handleSendMessage_begin c imageUrl now now' s)"
| "step (SendSettled i r) s = handleSendMessage_end i r s"
| "step (UploadStarted file previewUrl now now') s =
     (case file of
        None \<Rightarrow> s
      | Some f \<Rightarrow>
          if file_size f > MAX_SIZE
          then showToast (utf16 ''Image size must be less than 2MB'') s
          else handleImageUpload_begin f previewUrl now now' s)"
| "step (UploadSigned f i previewUrl sign) s =
     (case sign of
        Inl e \<Rightarrow> emit (RevokeObjectURL previewUrl) (upload_failed i e s)
      | Inr sg \<Rightarrow> emit (Request (OssUpload (upload_url sg) f)) s)"
| "step (UploadSettled i previewUrl up now2 now2') s =
     (case up of
        Inl e \<Rightarrow> emit (RevokeObjectURL previewUrl) (upload_failed i e s)
      | Inr u \<Rightarrow>
          if u = [] then emit (RevokeObjectURL previewUrl) (upload_stored i u s)
          else handleSendMessage_begin [] u now2 now2' (upload_stored i u s))"
| "step (PreviewRevoked previewUrl) s = emit (RevokeObjectURL previewUrl) s"

fun run_events :: "event list \<Rightarrow> chat_state \<Rightarrow> chat_state" where
  "run_events [] s = s"
| "run_events (e # es) s = run_events es (step e s)"

text \<open>
  \<open>handleSendMessage(content, imageUrl)\<close>. \<open>during\<close> is what the event loop runs while
  \<open>api.sendMessage\<close> is awaited, and \<open>r\<close> the result of that call: the continuation
  maps over the list that is held then, not the one the optimistic message was appended
  to.
\<close>

definition handleSendMessage ::
  "jsstring \<Rightarrow> jsstring \<Rightarrow> nat \<Rightarrow> nat \<Rightarrow> event list \<Rightarrow> jsstring + unit \<Rightarrow> chat_state \<Rightarrow> chat_state" where
  "handleSendMessage c imageUrl now now' during r s =
     (if trim c = [] \<and> imageUrl = [] then s
      else handleSendMessage_end now r
             (run_events during (handleSendMessage_begin c imageUrl now now' s)))"

text \<open>
  \<open>handleImageUpload(file)\<close>. \<open>previewUrl\<close> is what \<open>URL.createObjectURL\<close> returns,
  \<open>now\<close> and \<open>now'\<close> the clock readings for the optimistic message, \<open>sign\<close> and \<open>up\<close>
  the results of the signature and the upload calls, and \<open>now2\<close>, \<open>now2'\<close>, \<open>sent\<close>
  the clock readings and the result of the nested \<open>handleSendMessage('', url)\<close>, which
  catches its own errors. \<open>during1\<close>, \<open>during2\<close> and \<open>during3\<close> are what runs while
  the signature, the upload and the nested send are awaited.
\<close>

definition handleImageUpload ::
  "js_file option \<Rightarrow> jsstring \<Rightarrow> nat \<Rightarrow> nat \<Rightarrow> event list \<Rightarrow> jsstring + oss_signature \<Rightarrow>
   event list \<Rightarrow> jsstring + unit \<Rightarrow> nat \<Rightarrow> nat \<Rightarrow> event list \<Rightarrow> jsstring + unit \<Rightarrow>
   chat_state \<Rightarrow> chat_state" where
  "handleImageUpload file previewUrl now now' during1 sign during2 up now2 now2' during3 sent s =
     (case file of
        None \<Rightarrow> s
      | Some f \<Rightarrow>
          if file_size f > MAX_SIZE
          then showToast (utf16 ''Image size must be less than 2MB'') s
          else
            let s3 = run_events during1 (handleImageUpload_begin f previewUrl now now' s);
                s4 = (case sign of
                        Inl e \<Rightarrow> upload_failed now e s3
                      | Inr sg \<Rightarrow>
                          let s5 = run_events during2
                                     (emit (Request (OssUpload (upload_url sg) f)) s3) in
                          (case up of
                             Inl e \<Rightarrow> upload_failed now e s5
                           | Inr u \<Rightarrow>
                               handleSendMessage [] (url sg) now2 now2' during3 sent
                                 (upload_stored now (url sg) s5)))
            in emit (RevokeObjectURL previewUrl) s4)"

section \<open>Concrete inputs\<close>

text \<open>A fetched message of which only \<open>id\<close>, \<open>is_view\<close> and \<open>is_reply\<close> matter.\<close>

definition fetched :: "nat \<Rightarrow> bool \<Rightarrow> bool \<Rightarrow> message" where
  "fetched i viewed reply =
     \<lparr> msg_id = i, content = utf16 ''m'', image_url = [], is_reply = reply, is_view = viewed,
       create_time = 1700000000, title = None, msgStatus = None \<rparr>"

text \<open>The scenario of the specification: newest first, an unread agent message, then a read user message.\<close>

definition example_batch :: "message list" where
  "example_batch = [fetched 5 False True, fetched 4 True False]"

text \<open>A batch whose newest message is unread and was sent by the user.\<close>

definition outbound_batch :: "message list" where
  "outbound_batch = [fetched 9 False False, fetched 8 False True, fetched 7 True True]"

text \<open>The state after the merge of \<open>outbound_batch\<close>: two unread, low-water-mark 9.\<close>

definition unread_state :: chat_state where
  "unread_state = processMessages outbound_batch initial_state"

text \<open>The state after one confirmed send at clock reading 7.\<close>

definition sent_once :: chat_state where
  "sent_once = handleSendMessage (utf16 ''a'') [] 7 7 [] (Inr ()) initial_state"

text \<open>A poll whose result arrives while a request is in flight.\<close>

definition poll_arrives :: "event list" where
  "poll_arrives = [Loaded False (Inr (HistoryList example_batch))]"

text \<open>A file of 3 MiB.\<close>

definition big_file :: js_file where
  "big_file = \<lparr> file_name = utf16 ''photo.png'', file_size = 3 * 1024 * 1024 \<rparr>"

section \<open>Predicates on states and traces\<close>

text \<open>
  The invariant of the unread-tracking state: the low-water-mark is nonzero only while
  the unread count is positive.
\<close>

definition unread_inv :: "chat_state \<Rightarrow> bool" where
  "unread_inv s = (lastUnreadId s \<noteq> 0 \<longrightarrow> 0 < unreadCount s)"

definition is_toast :: "effect \<Rightarrow> bool" where
  "is_toast e = (case e of ShowToast m \<Rightarrow> True | _ \<Rightarrow> False)"

definition is_request :: "effect \<Rightarrow> bool" where
  "is_request e = (case e of Request q \<Rightarrow> True | _ \<Rightarrow> False)"

section \<open>Properties of the merge step\<close>

lemmas state_defs = emit_def showToast_def scrollToBottom_def

lemma processMessages_loop_processed:
  "fst (processMessages_loop i msgs (p, u, l)) = rev msgs @ p"
  by (induction msgs arbitrary: i p u l) simp_all

lemma processMessages_loop_unread:
  "fst (snd (processMessages_loop i msgs (p, u, l))) =
     u + length (filter (\<lambda>m. \<not> is_view m) msgs)"
  by (induction msgs arbitrary: i p u l) simp_all

lemma processMessages_loop_lastUnread_later:
  "0 < i \<Longrightarrow> snd (snd (processMessages_loop i msgs (p, u, l))) = l"
  by (induction msgs arbitrary: i p u l) simp_all

lemma processMessages_loop_lastUnread:
  "snd (snd (processMessages_loop 0 msgs (p, u, l))) =
     (case msgs of
        [] \<Rightarrow> l
      | m # _ \<Rightarrow> if \<not> is_view m \<and> \<not> is_reply m then msg_id m else l)"
  by (cases msgs) (simp_all add: processMessages_loop_lastUnread_later)

lemma messages_processMessages: "messages (processMessages msgs s) = rev msgs"
  using processMessages_loop_processed [of 0 msgs "[]" 0 0]
  by (auto simp: processMessages_def scrollToBottom_def emit_def Let_def split: prod.splits)

lemma unreadCount_processMessages:
  "unreadCount (processMessages msgs s) = length (filter (\<lambda>m. \<not> is_view m) msgs)"
  using processMessages_loop_unread [of 0 msgs "[]" 0 0]
  by (auto simp: processMessages_def scrollToBottom_def emit_def Let_def split: prod.splits)

lemma lastUnreadId_processMessages:
  "lastUnreadId (processMessages msgs s) =
     (case msgs of
        [] \<Rightarrow> 0
      | m # _ \<Rightarrow> if \<not> is_view m \<and> \<not> is_reply m then msg_id m else 0)"
  using processMessages_loop_lastUnread [of msgs "[]" 0 0]
  by (auto simp: processMessages_def scrollToBottom_def emit_def Let_def split: prod.splits)

text \<open>
  C1 (as stated, refuted). The claim has the low-water-mark of the batch
  \<open>[{id:5, is_view:false, is_reply:true}, {id:4, is_view:true, is_reply:false}]\<close> be 5.
  The loop assigns \<open>lastUnread\<close> only under \<open>i === 0 && !msg.is_reply\<close>; the newest
  message here is a reply, so the mark stays 0.
\<close>

theorem C1_counterexample:
  "lastUnreadId (processMessages example_batch initial_state) \<noteq> 5"
  by (simp add: lastUnreadId_processMessages example_batch_def fetched_def)

text \<open>
  C1 (amended). For every fetched newest-first sequence, the merge step records as the
  low-water-mark the id of the first (newest) entry when that entry is unread
  (\<open>is_view = false\<close>) and was sent by the user (\<open>is_reply = false\<close>), and 0 otherwise;
  later entries are never recorded.
\<close>

theorem C1_low_water_mark:
  "lastUnreadId (processMessages msgs s) =
     (case msgs of
        [] \<Rightarrow> 0
      | m # rest \<Rightarrow> if \<not> is_view m \<and> \<not> is_reply m then msg_id m else 0)"
  by (rule lastUnreadId_processMessages)

theorem C1_low_water_mark_witness:
  "lastUnreadId (processMessages example_batch initial_state) = 0 \<and>
   lastUnreadId (processMessages outbound_batch initial_state) = 9"
  using C1_low_water_mark [of example_batch initial_state]
        C1_low_water_mark [of outbound_batch initial_state]
  by (simp add: example_batch_def outbound_batch_def fetched_def)

section \<open>Properties of the history fetch\<close>

lemma history_flags_append: "history_flags (xs @ ys) = history_flags xs @ history_flags ys"
  by (induction xs rule: history_flags.induct) simp_all

lemma effects_processMessages_flags:
  "history_flags (effects (processMessages msgs s)) = history_flags (effects s)"
  by (auto simp: processMessages_def scrollToBottom_def emit_def Let_def history_flags_append
      split: prod.splits)

lemma isFirstLoad_processMessages: "isFirstLoad (processMessages msgs s) = isFirstLoad s"
  by (auto simp: processMessages_def scrollToBottom_def emit_def Let_def split: prod.splits)

lemma history_flags_loadMessages:
  "history_flags (effects (loadMessages isInitial r s)) =
     history_flags (effects s) @ [\<not> isFirstLoad s]"
  by (auto simp: loadMessages_def finish_load_def emit_def Let_def history_flags_append
      effects_processMessages_flags split: sum.splits history_data.splits)

lemma isFirstLoad_loadMessages:
  "isFirstLoad (loadMessages isInitial r s) =
     (isFirstLoad s \<and> \<not> initial_fetch_completed (isInitial, r))"
  by (auto simp: loadMessages_def finish_load_def emit_def Let_def isFirstLoad_processMessages
      split: sum.splits history_data.splits)

text \<open>
  Along a session, the flag of the \<open>k\<close>-th request is true exactly when the state was
  already past its first load or one of the earlier fetches completed as an initial one.
\<close>

lemma history_flags_run_loads:
  "history_flags (effects (run_loads evs s)) =
     history_flags (effects s) @
     map (\<lambda>k. \<not> isFirstLoad s \<or> list_ex initial_fetch_completed (take k evs)) [0..<length evs]"
proof (induction evs arbitrary: s)
  case Nil
  show ?case by simp
next
  case (Cons ev evs)
  obtain isInitial r where ev: "ev = (isInitial, r)" by (cases ev)
  show ?case
    unfolding ev run_loads.simps Cons.IH history_flags_loadMessages isFirstLoad_loadMessages
    by (simp add: map_upt_Suc del: upt_Suc)
qed

text \<open>
  C2 (as stated, refuted). The claim has the flag be true before the first completed
  initial fetch and false after it. From the initial state, where \<open>isFirstLoad\<close> holds,
  the initial fetch sends \<open>is_greeting=false\<close> and the poll after it sends
  \<open>is_greeting=true\<close>.
\<close>

theorem C2_counterexample:
  "isFirstLoad initial_state \<and>
   history_flags (effects (loadMessages True (Inr (HistoryList [])) initial_state)) = [False] \<and>
   history_flags (effects (loadMessages False (Inr (HistoryList []))
      (loadMessages True (Inr (HistoryList [])) initial_state))) = [False, True]"
  by (simp add: history_flags_loadMessages isFirstLoad_loadMessages initial_state_def)

text \<open>
  C2 (amended). Every history fetch sends exactly one history request, whose
  \<open>is_greeting\<close> flag is \<open>!isFirstLoad\<close>; so, in a session started from the initial
  state, the flag of a fetch equals "at least one earlier initial fetch has completed":
  false on every call up to and including the first initial fetch that completes, true
  on every call after it.
\<close>

theorem C2_greeting_flag:
  "history_flags (effects (loadMessages isInitial r s)) =
     history_flags (effects s) @ [\<not> isFirstLoad s] \<and>
   history_flags (effects (run_loads evs initial_state)) =
     map (\<lambda>k. list_ex initial_fetch_completed (take k evs)) [0..<length evs]"
  by (simp add: history_flags_loadMessages history_flags_run_loads initial_state_def)

theorem C2_greeting_flag_witness:
  "history_flags (effects (run_loads
      [(True, Inl (utf16 ''offline'')), (True, Inr (HistoryObject None (Some example_batch))),
       (False, Inr (HistoryList example_batch))] initial_state)) = [False, False, True]"
  using C2_greeting_flag [of True "Inl []" initial_state
      "[(True, Inl (utf16 ''offline'')), (True, Inr (HistoryObject None (Some example_batch))),
       (False, Inr (HistoryList example_batch))]"]
  by (simp add: upt_rec)

text \<open>
  C3. For every fetched sequence, the message list after the merge step is the reversal
  of the sequence, whatever the list was before: the previous list is replaced, not
  extended. The same holds for a fetch that returns the array, or the object with it as
  \<open>list\<close>.
\<close>

theorem C3_merged_list_is_reversal:
  "messages (processMessages msgs s) = rev msgs \<and>
   messages (loadMessages isInitial (Inr (HistoryList msgs)) s) = rev msgs \<and>
   messages (loadMessages isInitial (Inr (HistoryObject g (Some msgs))) s) = rev msgs"
  by (simp add: messages_processMessages loadMessages_def finish_load_def Let_def or_empty_def)

text \<open>
  C4. For every fetched sequence, the unread count set by the merge step is the number
  of its entries whose \<open>is_view\<close> is false.
\<close>

theorem C4_unread_count:
  "unreadCount (processMessages msgs s) = length (filter (\<lambda>m. \<not> is_view m) msgs)"
  by (rule unreadCount_processMessages)

section \<open>Properties of the read confirmation\<close>

lemma unread_state_fields: "unreadCount unread_state = 2 \<and> lastUnreadId unread_state = 9"
  by (simp add: unread_state_def unreadCount_processMessages lastUnreadId_processMessages
      outbound_batch_def fetched_def)

text \<open>
  C5. For every id for which a read-confirmation request is made (every id other than
  the falsy 0): when the request succeeds, \<open>markAsRead\<close> sets the unread count and the
  low-water-mark to zero, whatever the low-water-mark was; when it fails, the unread
  count, the low-water-mark and the toast are unchanged, no toast is shown, and the
  error only goes to the console.
\<close>

theorem C5_markAsRead:
  "(i \<noteq> 0 \<longrightarrow>
      unreadCount (markAsRead i (Inr ()) s) = 0 \<and>
      lastUnreadId (markAsRead i (Inr ()) s) = 0 \<and>
      effects (markAsRead i (Inr ()) s) = effects s @ [Request (ChatRead i)]) \<and>
   (i \<noteq> 0 \<longrightarrow>
      effects (markAsRead i (Inl e) s) =
        effects s @ [Request (ChatRead i),
                     ConsoleError (utf16 ''Failed to mark as read:'') (ApiError e)]) \<and>
   unreadCount (markAsRead i (Inl e) s) = unreadCount s \<and>
   lastUnreadId (markAsRead i (Inl e) s) = lastUnreadId s \<and>
   toast (markAsRead i (Inl e) s) = toast s \<and>
   filter is_toast (effects (markAsRead i (Inl e) s)) = filter is_toast (effects s)"
  by (simp add: markAsRead_def emit_def Let_def is_toast_def)

theorem C5_markAsRead_witness:
  "(4::nat) \<noteq> 0 \<and> lastUnreadId unread_state = 9 \<and> unreadCount unread_state = 2 \<and>
   unreadCount (markAsRead 4 (Inr ()) unread_state) = 0 \<and>
   lastUnreadId (markAsRead 4 (Inr ()) unread_state) = 0 \<and>
   unreadCount (markAsRead 4 (Inl (utf16 ''HTTP error! status: 500'')) unread_state) = 2 \<and>
   lastUnreadId (markAsRead 4 (Inl (utf16 ''HTTP error! status: 500'')) unread_state) = 9"
  using C5_markAsRead [of 4 unread_state "utf16 ''HTTP error! status: 500''"]
  by (simp add: unread_state_fields)

section \<open>What the in-flight events keep\<close>

lemma unread_inv_processMessages: "unread_inv (processMessages msgs s)"
  by (cases msgs)
     (simp_all add: unread_inv_def lastUnreadId_processMessages unreadCount_processMessages)

lemma unread_inv_finish_load: "unread_inv (finish_load b s) = unread_inv s"
  by (simp add: finish_load_def unread_inv_def)

lemma unread_inv_emit: "unread_inv (emit e s) = unread_inv s"
  by (simp add: emit_def unread_inv_def)

lemma unread_inv_loadMessages: "unread_inv s \<Longrightarrow> unread_inv (loadMessages isInitial r s)"
  by (simp add: loadMessages_def Let_def unread_inv_finish_load unread_inv_processMessages
      unread_inv_emit split: sum.splits history_data.splits)

lemma unread_inv_markAsRead: "unread_inv s \<Longrightarrow> unread_inv (markAsRead i r s)"
  by (auto simp: markAsRead_def Let_def emit_def unread_inv_def split: sum.splits)

lemma unread_inv_handleScroll: "unread_inv s \<Longrightarrow> unread_inv (handleScroll c r s)"
  by (auto simp: handleScroll_def Let_def unread_inv_def markAsRead_def emit_def
      split: option.splits sum.splits prod.splits)

lemma unread_inv_showToast: "unread_inv (showToast m s) = unread_inv s"
  by (simp add: state_defs unread_inv_def)

lemma unread_inv_handleSendMessage_begin:
  "unread_inv (handleSendMessage_begin c u n n' s) = unread_inv s"
  by (simp add: handleSendMessage_begin_def state_defs unread_inv_def)

lemma unread_inv_handleSendMessage_end:
  "unread_inv (handleSendMessage_end i r s) = unread_inv s"
  by (simp add: handleSendMessage_end_def state_defs unread_inv_def Let_def split: sum.splits)

lemma unread_inv_upload_failed: "unread_inv (upload_failed i e s) = unread_inv s"
  by (simp add: upload_failed_def state_defs unread_inv_def)

lemma unread_inv_upload_stored: "unread_inv (upload_stored i u s) = unread_inv s"
  by (simp add: upload_stored_def unread_inv_def)

lemma unread_inv_handleImageUpload_begin:
  "unread_inv (handleImageUpload_begin f p n n' s) = unread_inv s"
  by (simp add: handleImageUpload_begin_def state_defs unread_inv_def Let_def)

lemmas unread_inv_pieces =
  unread_inv_emit unread_inv_showToast unread_inv_handleSendMessage_begin
  unread_inv_handleSendMessage_end unread_inv_upload_failed unread_inv_upload_stored
  unread_inv_handleImageUpload_begin

lemma unread_inv_step: "unread_inv s \<Longrightarrow> unread_inv (step e s)"
proof (cases e)
  case (Loaded isInitial r)
  assume "unread_inv s"
  then show ?thesis unfolding Loaded by (simp add: unread_inv_loadMessages)
next
  case (MarkedRead i r)
  assume "unread_inv s"
  then show ?thesis unfolding MarkedRead by (simp add: unread_inv_markAsRead)
next
  case (Scrolled c r)
  assume "unread_inv s"
  then show ?thesis unfolding Scrolled by (simp add: unread_inv_handleScroll)
qed (simp_all add: unread_inv_pieces split: option.splits sum.splits, simp_all add: unread_inv_def)

lemma unread_inv_run_events: "unread_inv s \<Longrightarrow> unread_inv (run_events evs s)"
  by (induction evs arbitrary: s) (simp_all add: unread_inv_step)

lemma unread_inv_handleSendMessage:
  "unread_inv s \<Longrightarrow> unread_inv (handleSendMessage c u n n' during r s)"
  by (simp add: handleSendMessage_def unread_inv_pieces unread_inv_run_events)

lemma unread_inv_handleImageUpload:
  "unread_inv s \<Longrightarrow> unread_inv (handleImageUpload f p n n' d1 sg d2 up n2 n2' d3 r s)"
  by (simp add: handleImageUpload_def Let_def unread_inv_pieces unread_inv_run_events
      unread_inv_handleSendMessage split: option.splits sum.splits)

text \<open>No handler takes anything out of the trace of effects.\<close>

lemma effects_processMessages_keep:
  "x \<in> set (effects s) \<Longrightarrow> x \<in> set (effects (processMessages msgs s))"
  by (auto simp: processMessages_def state_defs Let_def split: prod.splits)

lemma effects_loadMessages_keep:
  "x \<in> set (effects s) \<Longrightarrow> x \<in> set (effects (loadMessages isInitial r s))"
  by (auto simp: loadMessages_def finish_load_def emit_def Let_def
      intro!: effects_processMessages_keep split: sum.splits history_data.splits)

lemma effects_markAsRead_keep:
  "x \<in> set (effects s) \<Longrightarrow> x \<in> set (effects (markAsRead i r s))"
  by (auto simp: markAsRead_def emit_def Let_def split: sum.splits)

lemma effects_handleScroll_keep:
  "x \<in> set (effects s) \<Longrightarrow> x \<in> set (effects (handleScroll c r s))"
  by (auto simp: handleScroll_def Let_def intro!: effects_markAsRead_keep
      split: option.splits prod.splits)

lemma effects_step_keep: "x \<in> set (effects s) \<Longrightarrow> x \<in> set (effects (step e s))"
  by (cases e)
     (auto simp: effects_loadMessages_keep effects_markAsRead_keep effects_handleScroll_keep
        handleSendMessage_begin_def handleSendMessage_end_def handleImageUpload_begin_def
        upload_failed_def upload_stored_def state_defs Let_def
      split: option.splits sum.splits)

lemma effects_run_events_keep:
  "x \<in> set (effects s) \<Longrightarrow> x \<in> set (effects (run_events evs s))"
  by (induction evs arbitrary: s) (simp_all add: effects_step_keep)

text \<open>
  C6. The invariant "the low-water-mark is nonzero only while the unread count is
  positive" holds initially, is established by every merge, and is preserved by every
  controller: the history fetch, the read confirmation (also through the scroll
  handler), the send and the image upload, whatever else runs while their requests are
  in flight. A successful read confirmation resets the unread count and the
  low-water-mark to zero in the same step.
\<close>

theorem C6_unread_invariant:
  "unread_inv initial_state \<and>
   unread_inv (processMessages msgs s) \<and>
   (unread_inv s \<longrightarrow>
      unread_inv (loadMessages isInitial h s) \<and>
      unread_inv (markAsRead i r s) \<and>
      unread_inv (handleScroll c r s) \<and>
      unread_inv (handleSendMessage body u n n' during r s) \<and>
      unread_inv (handleImageUpload f p n n' d1 sg d2 up n2 n2' d3 r s)) \<and>
   (i \<noteq> 0 \<longrightarrow>
      unreadCount (markAsRead i (Inr ()) s) = 0 \<and> lastUnreadId (markAsRead i (Inr ()) s) = 0)"
proof -
  have init: "unread_inv initial_state"
    by (simp add: unread_inv_def initial_state_def)
  have merge: "unread_inv (processMessages msgs s)"
    by (rule unread_inv_processMessages)
  have keep: "unread_inv (loadMessages isInitial h s) \<and>
      unread_inv (markAsRead i r s) \<and>
      unread_inv (handleScroll c r s) \<and>
      unread_inv (handleSendMessage body u n n' during r s) \<and>
      unread_inv (handleImageUpload f p n n' d1 sg d2 up n2 n2' d3 r s)" if "unread_inv s"
    using that
    by (simp add: unread_inv_loadMessages unread_inv_markAsRead unread_inv_handleScroll
        unread_inv_handleSendMessage unread_inv_handleImageUpload)
  have clear: "unreadCount (markAsRead i (Inr ()) s) = 0 \<and>
      lastUnreadId (markAsRead i (Inr ()) s) = 0" if "i \<noteq> 0"
    using that by (simp add: markAsRead_def Let_def emit_def)
  from init merge keep clear show ?thesis
    by simp
qed

theorem C6_unread_invariant_witness:
  "lastUnreadId unread_state \<noteq> 0 \<and> unread_inv unread_state \<and>
   unread_inv (markAsRead 9 (Inl (utf16 ''Request failed'')) unread_state) \<and>
   unread_inv (markAsRead 9 (Inr ()) unread_state) \<and>
   unread_inv (loadMessages False (Inl (utf16 ''Request failed'')) unread_state) \<and>
   unread_inv (handleSendMessage (utf16 ''b'') [] 8 8 poll_arrives (Inr ()) unread_state) \<and>
   (9::nat) \<noteq> 0 \<and>
   unreadCount (markAsRead 9 (Inr ()) unread_state) = 0 \<and>
   lastUnreadId (markAsRead 9 (Inr ()) unread_state) = 0"
proof -
  have inv: "unread_inv unread_state"
    by (simp add: unread_inv_def unread_state_fields)
  have nz: "(9::nat) \<noteq> 0" by simp
  note a = C6_unread_invariant [where s = unread_state and isInitial = False
        and h = "Inl (utf16 ''Request failed'')" and i = 9
        and r = "Inl (utf16 ''Request failed'')"]
  note b = C6_unread_invariant [where s = unread_state and i = 9 and r = "Inr ()"
        and body = "utf16 ''b''" and u = "[]" and n = 8 and n' = 8 and during = poll_arrives]
  note a' = a [THEN conjunct2, THEN conjunct2, THEN conjunct1, THEN mp, OF inv]
  note b' = b [THEN conjunct2, THEN conjunct2, THEN conjunct1, THEN mp, OF inv]
  have fail: "unread_inv (markAsRead 9 (Inl (utf16 ''Request failed'')) unread_state) \<and>
      unread_inv (loadMessages False (Inl (utf16 ''Request failed'')) unread_state)"
    by (rule conjI [OF a' [THEN conjunct2, THEN conjunct1] a' [THEN conjunct1]])
  have ok: "unread_inv (markAsRead 9 (Inr ()) unread_state) \<and>
      unread_inv (handleSendMessage (utf16 ''b'') [] 8 8 poll_arrives (Inr ()) unread_state)"
    by (rule conjI [OF b' [THEN conjunct2, THEN conjunct1]
          b' [THEN conjunct2, THEN conjunct2, THEN conjunct2, THEN conjunct1]])
  have zero: "unreadCount (markAsRead 9 (Inr ()) unread_state) = 0 \<and>
      lastUnreadId (markAsRead 9 (Inr ()) unread_state) = 0"
    by (rule b [THEN conjunct2, THEN conjunct2, THEN conjunct2, THEN mp, OF nz])
  show ?thesis
    using inv nz fail ok zero by (simp add: unread_state_fields)
qed


section \<open>Properties of sending and uploading\<close>

lemma set_status_fresh:
  "\<forall>m \<in> set ms. msg_id m \<noteq> i \<Longrightarrow> set_status i st ms = ms"
  by (induction ms) (simp_all add: set_status_def)

lemma set_status_append:
  "set_status i st (xs @ ys) = set_status i st xs @ set_status i st ys"
  by (simp add: set_status_def)

lemma length_set_status: "length (set_status i st ms) = length ms"
  by (simp add: set_status_def)

text \<open>
  The state in which the continuation of a send runs, and what the continuation makes
  of it.
\<close>

lemma handleSendMessage_unfold:
  "trim body \<noteq> [] \<or> u \<noteq> [] \<Longrightarrow>
   handleSendMessage body u n n' during r s =
     handleSendMessage_end n r (run_events during (handleSendMessage_begin body u n n' s))"
  by (auto simp: handleSendMessage_def)

lemma messages_handleSendMessage_end:
  "messages (handleSendMessage_end i r t) =
     set_status i (case r of Inl e \<Rightarrow> Some 2 | Inr v \<Rightarrow> None) (messages t)"
  by (simp add: handleSendMessage_end_def state_defs Let_def split: sum.splits)

lemma effects_handleSendMessage_end:
  "effects (handleSendMessage_end i r t) =
     effects t @ (case r of Inl e \<Rightarrow> [ShowToast e] | Inr v \<Rightarrow> [])"
  by (simp add: handleSendMessage_end_def state_defs Let_def split: sum.splits)

lemma messages_handleSendMessage_begin:
  "messages (handleSendMessage_begin body u n n' s) =
     messages s @ [tempMessage n n' (trim body) u]"
  by (simp add: handleSendMessage_begin_def state_defs)

lemma effects_handleSendMessage_begin:
  "effects (handleSendMessage_begin body u n n' s) =
     effects s @ [ScrollToBottom Smooth, Request (SendChat (trim body) u)]"
  by (simp add: handleSendMessage_begin_def state_defs)

lemma messages_handleSendMessage:
  "trim body \<noteq> [] \<or> u \<noteq> [] \<Longrightarrow>
   messages (handleSendMessage body u n n' [] r s) =
     set_status n (case r of Inl e \<Rightarrow> Some 2 | Inr v \<Rightarrow> None)
       (messages s @ [tempMessage n n' (trim body) u])"
  by (simp add: handleSendMessage_unfold messages_handleSendMessage_end
      messages_handleSendMessage_begin)

lemma effects_handleSendMessage:
  "trim body \<noteq> [] \<or> u \<noteq> [] \<Longrightarrow>
   effects (handleSendMessage body u n n' [] r s) =
     effects s @ [ScrollToBottom Smooth, Request (SendChat (trim body) u)] @
       (case r of Inl e \<Rightarrow> [ShowToast e] | Inr v \<Rightarrow> [])"
  by (simp add: handleSendMessage_unfold effects_handleSendMessage_end
      effects_handleSendMessage_begin)

lemma messages_poll_arrives:
  "messages (run_events poll_arrives t) = rev example_batch"
  by (simp add: poll_arrives_def loadMessages_def finish_load_def Let_def
      messages_processMessages)

text \<open>
  C7 (as stated, refuted), at two inputs. First: the status update after a failed send
  goes to every message whose \<open>id\<close> equals that of the optimistic message, and the
  \<open>id\<close> is the clock reading; a first send at reading 7 was confirmed (its status is
  absent), a second send at the same reading fails, and the first message is marked
  failed as well. Second: a poll's result arrives while the request is in flight and
  replaces the list; the failed send then finds no message with its id, and the list is
  the polled one, ids 4 and 5, with no message marked failed.
\<close>

theorem C7_counterexample:
  "msgStatus (messages sent_once ! 0) = None \<and>
   msgStatus (messages (handleSendMessage (utf16 ''b'') [] 7 8 [] (Inl (utf16 ''Request failed''))
                sent_once) ! 0) = Some 2 \<and>
   map msg_id (messages (handleSendMessage (utf16 ''b'') [] 7 7 poll_arrives
                (Inl (utf16 ''Request failed'')) initial_state)) = [4, 5] \<and>
   map msgStatus (messages (handleSendMessage (utf16 ''b'') [] 7 7 poll_arrives
                (Inl (utf16 ''Request failed'')) initial_state)) = [None, None]"
proof -
  have t: "trim (utf16 ''b'') \<noteq> []" "trim (utf16 ''a'') \<noteq> []"
    by (simp_all add: utf16_def trim_def js_whitespace_def)
  have "msgStatus (messages sent_once ! 0) = None"
    by (simp add: sent_once_def messages_handleSendMessage t set_status_def tempMessage_def
        initial_state_def)
  moreover have "msgStatus (messages (handleSendMessage (utf16 ''b'') [] 7 8 []
      (Inl (utf16 ''Request failed'')) sent_once) ! 0) = Some 2"
    by (simp add: sent_once_def messages_handleSendMessage t set_status_def tempMessage_def
        initial_state_def)
  moreover have "messages (handleSendMessage (utf16 ''b'') [] 7 7 poll_arrives
      (Inl (utf16 ''Request failed'')) initial_state) = rev example_batch"
    by (simp add: handleSendMessage_unfold t messages_handleSendMessage_end
        messages_poll_arrives)
       (simp add: set_status_def example_batch_def fetched_def)
  ultimately show ?thesis
    by (simp add: example_batch_def fetched_def)
qed

text \<open>
  C7 (amended). For every send whose backend call fails, whatever ran while the request
  was in flight: the failure step keeps the list that is held then, message for message,
  changing nothing but the status, which it sets to 2 on exactly the messages whose id is
  that of the optimistic message; it removes no message; and it produces exactly one
  toast, the error message. When nothing else ran in between, the list has grown by
  exactly one message and the send's effects are the scroll, the request and the toast;
  if moreover no message already in the list had the id of the optimistic message, the
  list is the old list followed by the optimistic message with status 2.
\<close>

theorem C7_failed_send:
  assumes "trim body \<noteq> [] \<or> u \<noteq> []"
  shows "messages (handleSendMessage body u n n' during (Inl e) s) =
       map (\<lambda>m. if msg_id m = n then m\<lparr> msgStatus := Some 2 \<rparr> else m)
         (messages (run_events during (handleSendMessage_begin body u n n' s))) \<and>
     length (messages (handleSendMessage body u n n' during (Inl e) s)) =
       length (messages (run_events during (handleSendMessage_begin body u n n' s))) \<and>
     effects (handleSendMessage body u n n' during (Inl e) s) =
       effects (run_events during (handleSendMessage_begin body u n n' s)) @ [ShowToast e] \<and>
     toast (handleSendMessage body u n n' during (Inl e) s) =
       \<lparr> toast_show = True, toast_message = e \<rparr> \<and>
     length (messages (handleSendMessage body u n n' [] (Inl e) s)) = Suc (length (messages s)) \<and>
     effects (handleSendMessage body u n n' [] (Inl e) s) =
       effects s @ [ScrollToBottom Smooth, Request (SendChat (trim body) u), ShowToast e] \<and>
     ((\<forall>m \<in> set (messages s). msg_id m \<noteq> n) \<longrightarrow>
        messages (handleSendMessage body u n n' [] (Inl e) s) =
          messages s @ [(tempMessage n n' (trim body) u)\<lparr> msgStatus := Some 2 \<rparr>])"
proof -
  let ?t = "run_events during (handleSendMessage_begin body u n n' s)"
  have run: "handleSendMessage body u n n' during (Inl e) s = handleSendMessage_end n (Inl e) ?t"
    using assms by (rule handleSendMessage_unfold)
  have msgs: "messages (handleSendMessage body u n n' during (Inl e) s) =
      map (\<lambda>m. if msg_id m = n then m\<lparr> msgStatus := Some 2 \<rparr> else m) (messages ?t)"
    unfolding run by (simp add: messages_handleSendMessage_end set_status_def)
  have len: "length (messages (handleSendMessage body u n n' during (Inl e) s)) =
      length (messages ?t)"
    unfolding msgs by simp
  have eff: "effects (handleSendMessage body u n n' during (Inl e) s) =
      effects ?t @ [ShowToast e]"
    unfolding run by (simp add: effects_handleSendMessage_end)
  have tst: "toast (handleSendMessage body u n n' during (Inl e) s) =
      \<lparr> toast_show = True, toast_message = e \<rparr>"
    unfolding run by (simp add: handleSendMessage_end_def state_defs)
  have len0: "length (messages (handleSendMessage body u n n' [] (Inl e) s)) =
      Suc (length (messages s))"
    using assms by (simp add: messages_handleSendMessage length_set_status)
  have eff0: "effects (handleSendMessage body u n n' [] (Inl e) s) =
      effects s @ [ScrollToBottom Smooth, Request (SendChat (trim body) u), ShowToast e]"
    using assms by (simp add: effects_handleSendMessage)
  have fresh: "messages (handleSendMessage body u n n' [] (Inl e) s) =
      messages s @ [(tempMessage n n' (trim body) u)\<lparr> msgStatus := Some 2 \<rparr>]"
    if "\<forall>m \<in> set (messages s). msg_id m \<noteq> n"
    using that assms
    by (simp add: messages_handleSendMessage set_status_append set_status_fresh)
       (simp add: set_status_def tempMessage_def)
  from msgs len eff tst len0 eff0 fresh show ?thesis
    by simp
qed

theorem C7_failed_send_witness:
  "trim (utf16 ''b'') \<noteq> [] \<and> map msg_id (messages sent_once) = [7] \<and>
   messages (handleSendMessage (utf16 ''b'') [] 8 8 [] (Inl (utf16 ''Request failed'')) sent_once) =
     messages sent_once @ [(tempMessage 8 8 (utf16 ''b'') [])\<lparr> msgStatus := Some 2 \<rparr>] \<and>
   effects (handleSendMessage (utf16 ''b'') [] 8 8 [] (Inl (utf16 ''Request failed'')) sent_once) =
     effects sent_once @ [ScrollToBottom Smooth, Request (SendChat (utf16 ''b'') []),
                          ShowToast (utf16 ''Request failed'')] \<and>
   messages (handleSendMessage (utf16 ''b'') [] 8 8 poll_arrives (Inl (utf16 ''Request failed''))
      sent_once) = rev example_batch \<and>
   toast (handleSendMessage (utf16 ''b'') [] 8 8 poll_arrives (Inl (utf16 ''Request failed''))
      sent_once) = \<lparr> toast_show = True, toast_message = utf16 ''Request failed'' \<rparr>"
proof -
  have t: "trim (utf16 ''b'') = utf16 ''b''" "trim (utf16 ''a'') = utf16 ''a''"
    by (simp_all add: utf16_def trim_def js_whitespace_def)
  have nb: "utf16 ''b'' \<noteq> []" "utf16 ''a'' \<noteq> []"
    by (simp_all add: utf16_def)
  have ne: "trim (utf16 ''b'') \<noteq> [] \<or> ([]::jsstring) \<noteq> []"
    by (simp add: t nb)
  have ids: "map msg_id (messages sent_once) = [7]"
    by (simp add: sent_once_def messages_handleSendMessage t nb set_status_def tempMessage_def
        initial_state_def)
  have fresh: "\<forall>m \<in> set (messages sent_once). msg_id m \<noteq> 8"
    by (simp add: sent_once_def messages_handleSendMessage t nb set_status_def tempMessage_def
        initial_state_def)
  note quiet = C7_failed_send [OF ne, of 8 8 "[]" "utf16 ''Request failed''" sent_once]
  note polled = C7_failed_send [OF ne, of 8 8 poll_arrives "utf16 ''Request failed''" sent_once]
  have q1: "messages (handleSendMessage (utf16 ''b'') [] 8 8 [] (Inl (utf16 ''Request failed''))
      sent_once) =
      messages sent_once @ [(tempMessage 8 8 (utf16 ''b'') [])\<lparr> msgStatus := Some 2 \<rparr>]"
    using fresh quiet unfolding t by blast
  have q2: "effects (handleSendMessage (utf16 ''b'') [] 8 8 [] (Inl (utf16 ''Request failed''))
      sent_once) =
      effects sent_once @ [ScrollToBottom Smooth, Request (SendChat (utf16 ''b'') []),
                           ShowToast (utf16 ''Request failed'')]"
    using quiet unfolding t by blast
  have p1: "messages (handleSendMessage (utf16 ''b'') [] 8 8 poll_arrives
      (Inl (utf16 ''Request failed'')) sent_once) = rev example_batch"
    unfolding polled [THEN conjunct1] messages_poll_arrives
    by (simp add: example_batch_def fetched_def)
  have p2: "toast (handleSendMessage (utf16 ''b'') [] 8 8 poll_arrives
      (Inl (utf16 ''Request failed'')) sent_once) =
      \<lparr> toast_show = True, toast_message = utf16 ''Request failed'' \<rparr>"
    using polled by blast
  show ?thesis
    using ids q1 q2 p1 p2 by (simp add: t nb)
qed

text \<open>
  C8. A send with empty content and empty image URL returns the state as it was: the
  message list, the input value, the unread count, the toast and the trace of effects
  (so no network call) are unchanged.
\<close>

theorem C8_empty_send_is_noop: "handleSendMessage [] [] n n' during r s = s"
  by (simp add: handleSendMessage_def trim_def)

text \<open>
  C9. For every file larger than 2 MiB, the image upload does nothing but show the
  toast: the message list is unchanged and the only effect is that one toast (no
  network call).
\<close>

theorem C9_oversized_image:
  assumes "file_size f > 2 * 1024 * 1024"
  shows "handleImageUpload (Some f) p n n' d1 sg d2 up n2 n2' d3 r s =
       showToast (utf16 ''Image size must be less than 2MB'') s \<and>
     messages (handleImageUpload (Some f) p n n' d1 sg d2 up n2 n2' d3 r s) = messages s \<and>
     effects (handleImageUpload (Some f) p n n' d1 sg d2 up n2 n2' d3 r s) =
       effects s @ [ShowToast (utf16 ''Image size must be less than 2MB'')]"
  using assms by (simp add: handleImageUpload_def MAX_SIZE_def state_defs)

theorem C9_oversized_image_witness:
  "file_size big_file > 2 * 1024 * 1024 \<and>
   messages (handleImageUpload (Some big_file) (utf16 ''blob:1'') 7 7 poll_arrives
       (Inr \<lparr> upload_url = utf16 ''u'', url = utf16 ''v'', credentials = [] \<rparr>) [] (Inr ()) 8 8 []
       (Inr ()) sent_once) = messages sent_once \<and>
   filter is_toast (effects (handleImageUpload (Some big_file) (utf16 ''blob:1'') 7 7 poll_arrives
       (Inr \<lparr> upload_url = utf16 ''u'', url = utf16 ''v'', credentials = [] \<rparr>) [] (Inr ()) 8 8 []
       (Inr ()) sent_once)) = [ShowToast (utf16 ''Image size must be less than 2MB'')] \<and>
   filter is_request (effects (handleImageUpload (Some big_file) (utf16 ''blob:1'') 7 7 poll_arrives
       (Inr \<lparr> upload_url = utf16 ''u'', url = utf16 ''v'', credentials = [] \<rparr>) [] (Inr ()) 8 8 []
       (Inr ()) sent_once)) = filter is_request (effects sent_once)"
proof -
  have big: "file_size big_file > 2 * 1024 * 1024"
    by (simp add: big_file_def)
  have ta: "trim (utf16 ''a'') \<noteq> []"
    by (simp add: utf16_def trim_def js_whitespace_def)
  have eff: "effects sent_once =
      [ScrollToBottom Smooth, Request (SendChat (trim (utf16 ''a'')) [])]"
    by (simp add: sent_once_def effects_handleSendMessage ta initial_state_def)
  show ?thesis
    using big C9_oversized_image [OF big, of "utf16 ''blob:1''" 7 7 poll_arrives
        "Inr \<lparr> upload_url = utf16 ''u'', url = utf16 ''v'', credentials = [] \<rparr>" "[]" "Inr ()" 8 8
        "[]" "Inr ()" sent_once]
    by (simp add: eff is_toast_def is_request_def state_defs)
qed


lemma all_dropWhile_iff: "(\<forall>x \<in> set (dropWhile P xs). P x) \<longleftrightarrow> (\<forall>x \<in> set xs. P x)"
proof
  assume all: "\<forall>x \<in> set (dropWhile P xs). P x"
  have "dropWhile P xs = []"
  proof (rule ccontr)
    assume ne: "dropWhile P xs \<noteq> []"
    then have "\<not> P (hd (dropWhile P xs))" by (rule hd_dropWhile)
    moreover have "hd (dropWhile P xs) \<in> set (dropWhile P xs)" using ne by simp
    ultimately show False using all by blast
  qed
  then show "\<forall>x \<in> set xs. P x" by (simp add: dropWhile_eq_Nil_conv)
next
  assume "\<forall>x \<in> set xs. P x"
  then show "\<forall>x \<in> set (dropWhile P xs). P x" by (auto dest: set_dropWhileD)
qed

lemma trim_eq_Nil_iff: "trim str = [] \<longleftrightarrow> (\<forall>ch \<in> set str. js_whitespace ch)"
  by (simp add: trim_def dropWhile_eq_Nil_conv all_dropWhile_iff)

lemma request_stays_handleSendMessage:
  assumes "trim body \<noteq> [] \<or> u \<noteq> []"
  shows "Request (SendChat (trim body) u) \<in> set (effects (handleSendMessage body u n n' during r s))"
proof -
  have "Request (SendChat (trim body) u) \<in> set (effects (handleSendMessage_begin body u n n' s))"
    by (simp add: effects_handleSendMessage_begin)
  then have "Request (SendChat (trim body) u) \<in>
      set (effects (run_events during (handleSendMessage_begin body u n n' s)))"
    by (rule effects_run_events_keep)
  then show ?thesis
    by (simp add: handleSendMessage_unfold [OF assms] effects_handleSendMessage_end)
qed

text \<open>
  C10. A send whose content is only white space, with no image URL, returns the state
  as it was. Whenever a send goes ahead, the optimistic message it appends has the
  trimmed input as content, and the request it makes carries the trimmed input and stays
  in the trace whatever runs while it is in flight; when nothing else runs in between,
  that message is the last of the final list and the request is the only one made.
\<close>

theorem C10_trimmed_send:
  "((\<forall>ch \<in> set body. js_whitespace ch) \<longrightarrow> handleSendMessage body [] n n' during r s = s) \<and>
   (trim body \<noteq> [] \<or> u \<noteq> [] \<longrightarrow>
      last (messages (handleSendMessage body u n n' [] r s)) =
        (tempMessage n n' (trim body) u)
          \<lparr> msgStatus := (case r of Inl e \<Rightarrow> Some 2 | Inr v \<Rightarrow> None) \<rparr> \<and>
      content (last (messages (handleSendMessage body u n n' [] r s))) = trim body \<and>
      filter is_request (effects (handleSendMessage body u n n' [] r s)) =
        filter is_request (effects s) @ [Request (SendChat (trim body) u)] \<and>
      last (messages (handleSendMessage_begin body u n n' s)) = tempMessage n n' (trim body) u \<and>
      Request (SendChat (trim body) u) \<in>
        set (effects (handleSendMessage body u n n' during r s)))"
proof -
  have noop: "handleSendMessage body [] n n' during r s = s"
    if "\<forall>ch \<in> set body. js_whitespace ch"
    using that trim_eq_Nil_iff [of body] by (simp add: handleSendMessage_def)
  have lst: "last (messages (handleSendMessage body u n n' [] r s)) =
        (tempMessage n n' (trim body) u)
          \<lparr> msgStatus := (case r of Inl e \<Rightarrow> Some 2 | Inr v \<Rightarrow> None) \<rparr>"
    if "trim body \<noteq> [] \<or> u \<noteq> []"
    using that
    by (simp add: messages_handleSendMessage set_status_append)
       (simp add: set_status_def tempMessage_def)
  have req: "filter is_request (effects (handleSendMessage body u n n' [] r s)) =
        filter is_request (effects s) @ [Request (SendChat (trim body) u)]"
    if "trim body \<noteq> [] \<or> u \<noteq> []"
    using that by (simp add: effects_handleSendMessage is_request_def split: sum.splits)
  have made: "last (messages (handleSendMessage_begin body u n n' s)) =
      tempMessage n n' (trim body) u"
    by (simp add: messages_handleSendMessage_begin)
  have stays: "Request (SendChat (trim body) u) \<in>
      set (effects (handleSendMessage body u n n' during r s))"
    if "trim body \<noteq> [] \<or> u \<noteq> []"
    using that by (rule request_stays_handleSendMessage)
  from noop lst req made stays show ?thesis
    by (simp add: tempMessage_def)
qed

theorem C10_trimmed_send_witness:
  "list_all js_whitespace (utf16 '' '' @ [0x3000, 0x0A]) \<and>
   handleSendMessage (utf16 '' '' @ [0x3000, 0x0A]) [] 7 7 poll_arrives (Inr ()) sent_once =
     sent_once \<and>
   trim (utf16 ''  hi there '') \<noteq> [] \<and>
   content (last (messages (handleSendMessage (utf16 ''  hi there '') [] 8 8 [] (Inr ()) sent_once))) =
     utf16 ''hi there'' \<and>
   filter is_request (effects (handleSendMessage (utf16 ''  hi there '') [] 8 8 [] (Inr ()) sent_once)) =
     filter is_request (effects sent_once) @ [Request (SendChat (utf16 ''hi there'') [])]"
proof -
  have ws: "\<forall>ch \<in> set (utf16 '' '' @ [0x3000, 0x0A]). js_whitespace ch"
    by (simp add: utf16_def js_whitespace_def)
  have t: "trim (utf16 ''  hi there '') = utf16 ''hi there''"
    by (simp add: utf16_def trim_def js_whitespace_def)
  have ne: "utf16 ''hi there'' \<noteq> []"
    by (simp add: utf16_def)
  have noop: "handleSendMessage (utf16 '' '' @ [0x3000, 0x0A]) [] 7 7 poll_arrives (Inr ())
      sent_once = sent_once"
    using ws
      C10_trimmed_send [of "utf16 '' '' @ [0x3000, 0x0A]" 7 7 poll_arrives "Inr ()" sent_once "[]"]
    by blast
  have sent: "content (last (messages
        (handleSendMessage (utf16 ''  hi there '') [] 8 8 [] (Inr ()) sent_once))) =
        trim (utf16 ''  hi there '') \<and>
      filter is_request (effects
        (handleSendMessage (utf16 ''  hi there '') [] 8 8 [] (Inr ()) sent_once)) =
        filter is_request (effects sent_once) @
          [Request (SendChat (trim (utf16 ''  hi there '')) [])]"
    using ne C10_trimmed_send [of "utf16 ''  hi there ''" 8 8 "[]" "Inr ()" sent_once "[]"]
    unfolding t by blast
  have ne': "trim (utf16 ''  hi there '') \<noteq> []"
    using ne by (simp add: t)
  show ?thesis
    using ws noop sent ne' unfolding t by (simp add: list_all_iff)
qed

end
